theory Spec2Isabelle
  imports Main "HOL-Library.Word"
begin

unbundle bit_operations_syntax

section \<open>The USB HID descriptor assembler of Zhele (common/usb/hid.h)\<close>

text \<open>
  The header describes a HID class descriptor at compile time: \<^verbatim>\<open>HidReport<_Data...>\<close>
  holds the raw bytes of one report descriptor, \<^verbatim>\<open>HidImpl<_Version, _Reports...>\<close> is the
  6-byte class descriptor followed by one 3-byte entry per report, and
  \<^verbatim>\<open>HidInterface\<close> answers the GetDescriptor request for the report bytes.

  The template parameter pack \<^verbatim>\<open>_Reports...\<close> is modelled as a list of reports, a report
  as the list of its bytes; the fold expressions of the source become recursion over
  that list. Memory is a flat store from addresses to bytes, a pointer is an address.
\<close>

subsection \<open>Data\<close>

type_synonym u8 = "8 word"
type_synonym u16 = "16 word"

text \<open>\<^verbatim>\<open>HidReport<_Data...>::Data\<close>: the array \<^verbatim>\<open>{_Data...}\<close>.\<close>

type_synonym report = "u8 list"

type_synonym addr = nat
type_synonym memory = "addr \<Rightarrow> u8"

text \<open>
  What the code can do other than return a value.
  \<^item> \<open>IllFormedEmptyFold\<close>: a unary fold over \<^verbatim>\<open>+\<close> whose pack is empty is ill-formed
    (only \<^verbatim>\<open>&&\<close>, \<^verbatim>\<open>||\<close> and the comma have a value for the empty pack), so a function
    whose body holds such a fold does not exist for the empty report list.
  \<^item> \<open>BufferOverrun\<close>: more bytes are written into a local array than it was declared
    with.
\<close>

datatype error = IllFormedEmptyFold | BufferOverrun

text \<open>\<^verbatim>\<open>sizeof(_Reports::Data)\<close>, a \<^verbatim>\<open>size_t\<close>: the number of bytes of the report.\<close>

definition sizeof_Data :: "report \<Rightarrow> nat" where
  "sizeof_Data r = length r"

text \<open>\<^verbatim>\<open>static_cast<uint16_t>(sizeof(_Reports::Data))\<close>: the conversion keeps the low 16 bits.\<close>

definition sizeof16 :: "report \<Rightarrow> u16" where
  "sizeof16 r = of_nat (sizeof_Data r)"

subsection \<open>HidImpl::ReportsSize\<close>

text \<open>
  \<^verbatim>\<open>(E + ...)\<close>, the unary right fold \<^verbatim>\<open>E1 + (E2 + (... + En))\<close>. Its operands are
  \<^verbatim>\<open>uint16_t\<close> values, which \<^verbatim>\<open>+\<close> promotes to \<^verbatim>\<open>int\<close>: the sum is taken in \<^verbatim>\<open>int\<close>,
  here the unbounded \<open>int\<close> (lemma \<open>promoted_sum_fits_int\<close> below bounds it for up to
  32768 reports by the largest 32-bit \<^verbatim>\<open>int\<close>).
\<close>

fun fold_plus :: "int list \<Rightarrow> error + int" where
  "fold_plus [] = Inl IllFormedEmptyFold"
| "fold_plus [x] = Inr x"
| "fold_plus (x # xs) = (case fold_plus xs of Inl e \<Rightarrow> Inl e | Inr s \<Rightarrow> Inr (x + s))"

text \<open>
  \<^verbatim>\<open>static constexpr uint16_t ReportsSize()
  { return (static_cast<uint16_t>(sizeof(_Reports::Data)) + ...); }\<close>
  The \<^verbatim>\<open>int\<close> sum is converted to the return type \<^verbatim>\<open>uint16_t\<close>.
\<close>

definition ReportsSize :: "report list \<Rightarrow> error + u16" where
  "ReportsSize reports =
     (case fold_plus (map (\<lambda>r. uint (sizeof16 r)) reports) of
        Inl e \<Rightarrow> Inl e
      | Inr s \<Rightarrow> Inr (word_of_int s))"

subsection \<open>HidImpl::FillReportsDescriptors\<close>

text \<open>
  \<^verbatim>\<open>((*address++ = 0x22,
    *address++ = static_cast<uint8_t>(static_cast<uint16_t>(sizeof(_Reports::Data)) & 0xff),
    *address++ = static_cast<uint8_t>((static_cast<uint16_t>(sizeof(_Reports::Data)) >> 8) & 0xff)),...);\<close>
  A fold over the comma: the reports are visited from left to right, and the empty
  pack writes nothing. The result is the final cursor and the memory.
\<close>

fun FillReportsDescriptors_fold :: "report list \<Rightarrow> addr \<Rightarrow> memory \<Rightarrow> addr \<times> memory" where
  "FillReportsDescriptors_fold [] address m = (address, m)"
| "FillReportsDescriptors_fold (r # rs) address m =
     (let m1 = m(address := 0x22);
          m2 = m1(address + 1 := ucast (sizeof16 r AND 0xff));
          m3 = m2(address + 2 := ucast (drop_bit 8 (sizeof16 r) AND 0xff))
      in FillReportsDescriptors_fold rs (address + 3) m3)"

text \<open>
  \<^verbatim>\<open>static uint16_t FillReportsDescriptors(uint8_t* address)
  { ...; return 3 * sizeof...(_Reports); }\<close>
  The product is a \<^verbatim>\<open>size_t\<close>, converted to the return type \<^verbatim>\<open>uint16_t\<close>.
\<close>

definition FillReportsDescriptors :: "report list \<Rightarrow> addr \<Rightarrow> memory \<Rightarrow> u16 \<times> memory" where
  "FillReportsDescriptors reports address m =
     (of_nat (3 * length reports), snd (FillReportsDescriptors_fold reports address m))"

subsection \<open>HidImpl::FillReports\<close>

text \<open>\<^verbatim>\<open>memcpy(dest, src, n)\<close>, with the \<open>n\<close> source bytes given as a list.\<close>

fun memcpy :: "addr \<Rightarrow> u8 list \<Rightarrow> memory \<Rightarrow> memory" where
  "memcpy dest [] m = m"
| "memcpy dest (b # bs) m = memcpy (dest + 1) bs (m(dest := b))"

text \<open>
  \<^verbatim>\<open>((memcpy(address, _Reports::Data, sizeof(_Reports::Data)),
     address += sizeof(_Reports::Data)), ...);\<close>
  The cursor advances by the \<^verbatim>\<open>size_t\<close> size of the report, not by its 16-bit cast.
\<close>

fun FillReports_fold :: "report list \<Rightarrow> addr \<Rightarrow> memory \<Rightarrow> addr \<times> memory" where
  "FillReports_fold [] address m = (address, m)"
| "FillReports_fold (r # rs) address m =
     FillReports_fold rs (address + sizeof_Data r) (memcpy address r m)"

text \<open>
  \<^verbatim>\<open>static uint16_t FillReports(uint8_t* address) { ...; return ReportsSize(); }\<close>
  The body calls \<^verbatim>\<open>ReportsSize\<close>, so it is ill-formed where \<^verbatim>\<open>ReportsSize\<close> is.
\<close>

definition FillReports :: "report list \<Rightarrow> addr \<Rightarrow> memory \<Rightarrow> error + (u16 \<times> memory)" where
  "FillReports reports address m =
     (case ReportsSize reports of
        Inl e \<Rightarrow> Inl e
      | Inr n \<Rightarrow> Inr (n, snd (FillReports_fold reports address m)))"

subsection \<open>The HidImpl object\<close>

text \<open>
  \<^verbatim>\<open>uint8_t Length = 0x06 + 3 * sizeof...(_Reports);
  uint8_t DescriptorType = 0x21;
  uint16_t Version = _Version;
  uint8_t CountryCode = 0x00;
  uint8_t ReportsCount = sizeof...(_Reports);\<close>
\<close>

record HidImpl =
  Length :: u8
  DescriptorType :: u8
  Version :: u16
  CountryCode :: u8
  ReportsCount :: u8

text \<open>\<^verbatim>\<open>_HidImpl { }\<close>: every member takes its default initialiser, converted to its type.\<close>

definition HidImpl_init :: "u16 \<Rightarrow> report list \<Rightarrow> HidImpl" where
  "HidImpl_init version reports =
     \<lparr> Length = of_nat (0x06 + 3 * length reports),
       DescriptorType = 0x21,
       Version = version,
       CountryCode = 0x00,
       ReportsCount = of_nat (length reports) \<rparr>"

text \<open>
  The object representation of a \<^verbatim>\<open>HidImpl\<close>: six bytes, the members in declaration
  order (offsets 0, 1, 2, 4, 5, no padding), the 16-bit member with its low byte first
  as on the little-endian Cortex-M targets of the library.
\<close>

definition HidImpl_bytes :: "HidImpl \<Rightarrow> u8 list" where
  "HidImpl_bytes h =
     [Length h, DescriptorType h,
      ucast (Version h AND 0xff), ucast (drop_bit 8 (Version h) AND 0xff),
      CountryCode h, ReportsCount h]"

text \<open>\<^verbatim>\<open>*hidDescriptor = _HidImpl { }\<close>: the assignment copies the object to the address.\<close>

definition store_HidImpl :: "addr \<Rightarrow> HidImpl \<Rightarrow> memory \<Rightarrow> memory" where
  "store_HidImpl p h m = memcpy p (HidImpl_bytes h) m"

text \<open>
  The part of \<^verbatim>\<open>HidInterface::FillDescriptor\<close> that writes the HID class descriptor:
  \<^verbatim>\<open>_HidImpl* hidDescriptor = reinterpret_cast<_HidImpl*>(++descriptor);
  *hidDescriptor = _HidImpl { };
  uint8_t* reportsPart = reinterpret_cast<uint8_t*>(++hidDescriptor);
  uint16_t bytesWritten = _HidImpl::FillReportsDescriptors(reportsPart);
  totalLength += sizeof(_HidImpl) + bytesWritten;\<close>
  The result is what these lines add to the 16-bit \<^verbatim>\<open>totalLength\<close>, and the memory.
  (The interface descriptor before it and the endpoint descriptors after it belong to
  \<^verbatim>\<open>interface.h\<close> and the endpoint classes.)
\<close>

definition FillDescriptor_HidImpl :: "u16 \<Rightarrow> report list \<Rightarrow> addr \<Rightarrow> memory \<Rightarrow> u16 \<times> memory" where
  "FillDescriptor_HidImpl version reports hidDescriptor m =
     (let m1 = store_HidImpl hidDescriptor (HidImpl_init version reports) m;
          reportsPart = hidDescriptor + 6;
          (bytesWritten, m2) = FillReportsDescriptors reports reportsPart m1
      in (6 + bytesWritten, m2))"

subsection \<open>HidInterface::SetupHandler\<close>

text \<open>
  Modelled from the spec: the structure \<^verbatim>\<open>SetupPacket\<close>, which is declared in a USB
  header that is not among the sources. The spec gives it as
  \<^verbatim>\<open>SetupPacket{request, value, length}\<close>; the handler reads \<^verbatim>\<open>setup->Request\<close>,
  \<^verbatim>\<open>setup->Value\<close> and \<^verbatim>\<open>setup->Length\<close>, the \<open>bRequest\<close> byte and the 16-bit
  \<open>wValue\<close> and \<open>wLength\<close> of a USB setup packet. The third field is \<open>Length\<close> in
  the source.
\<close>

record SetupPacket =
  Request :: u8
  Value :: u16
  Length_setup :: u16

text \<open>
  Modelled from the spec: the control endpoint \<^verbatim>\<open>_Ep0\<close>, a template parameter whose
  class is not among the sources, provides \<^verbatim>\<open>SendData(buffer, length)\<close>. A call of it
  is recorded with its two arguments.
\<close>

datatype ep0_call = SendData addr u16

text \<open>
  \<^verbatim>\<open>if (setup->Request == StandartRequestCode::GetDescriptor
    && static_cast<GetDescriptorParameter>(setup->Value) == GetDescriptorParameter::HidReportDescriptor)
  {
    uint8_t temp[HidInterface::ReportsSize()];
    uint16_t size = HidInterface::FillReports(temp);
    _Ep0::SendData(temp, setup->Length < size ? setup->Length : size);
  }\<close>
  The two enumerators are declared in the USB headers and are parameters here, as is
  the address \<open>temp\<close> the local array gets. \<^verbatim>\<open>HidInterface::ReportsSize\<close> and
  \<^verbatim>\<open>HidInterface::FillReports\<close> forward to \<^verbatim>\<open>_HidImpl\<close>. The array bound is a constant
  expression, so the handler as a whole does not exist where \<^verbatim>\<open>ReportsSize\<close> is
  ill-formed. The local \<^verbatim>\<open>size\<close> is \<open>size'\<close> here. The result is the memory and the calls
  made on the endpoint.
\<close>

definition SetupHandler ::
  "u8 \<Rightarrow> u16 \<Rightarrow> report list \<Rightarrow> SetupPacket \<Rightarrow> addr \<Rightarrow> memory \<Rightarrow> error + (memory \<times> ep0_call list)" where
  "SetupHandler GetDescriptor HidReportDescriptor reports setup temp m =
     (case ReportsSize reports of
        Inl e \<Rightarrow> Inl e
      | Inr temp_size \<Rightarrow>
          if Request setup = GetDescriptor \<and> Value setup = HidReportDescriptor then
            (case FillReports reports temp m of
               Inl e \<Rightarrow> Inl e
             | Inr (size', m') \<Rightarrow>
                 if unat temp_size < sum_list (map sizeof_Data reports) then Inl BufferOverrun
                 else Inr (m', [SendData temp
                        (if Length_setup setup < size' then Length_setup setup else size')]))
          else Inr (m, []))"

subsection \<open>Reading memory back\<close>

text \<open>A memory of zero bytes.\<close>

definition blank :: memory where
  "blank = (\<lambda>_. 0)"

text \<open>The \<open>n\<close> bytes from address \<open>a\<close> on.\<close>

fun load :: "memory \<Rightarrow> addr \<Rightarrow> nat \<Rightarrow> u8 list" where
  "load m a 0 = []"
| "load m a (Suc n) = m a # load m (a + 1) n"

text \<open>Consecutive segments from address \<open>a\<close> on, of the given lengths.\<close>

fun segments :: "memory \<Rightarrow> addr \<Rightarrow> nat list \<Rightarrow> u8 list list" where
  "segments m a [] = []"
| "segments m a (n # ns) = load m a n # segments m (a + n) ns"

text \<open>The 16-bit number two bytes hold, low byte first.\<close>

definition le16 :: "u8 \<Rightarrow> u8 \<Rightarrow> nat" where
  "le16 lo hi = unat lo + 256 * unat hi"

text \<open>The \<open>wDescriptorLength\<close> field of the \<open>i\<close>-th 3-byte entry from address \<open>a\<close> on.\<close>

definition wDescriptorLength :: "memory \<Rightarrow> addr \<Rightarrow> nat \<Rightarrow> nat" where
  "wDescriptorLength m a i = le16 (m (a + 3 * i + 1)) (m (a + 3 * i + 2))"

text \<open>The three bytes of a report's entry as the source computes them.\<close>

definition entry :: "report \<Rightarrow> u8 list" where
  "entry r = [0x22, ucast (sizeof16 r AND 0xff), ucast (drop_bit 8 (sizeof16 r) AND 0xff)]"

text \<open>A list of indices applied to a list: position \<open>k\<close> of the result is \<open>xs ! (p ! k)\<close>.\<close>

definition permute :: "nat list \<Rightarrow> 'a list \<Rightarrow> 'a list" where
  "permute p xs = map (\<lambda>i. xs ! i) p"

text \<open>\<open>p\<close> lists every index below \<open>n\<close> exactly once.\<close>

definition is_permutation :: "nat list \<Rightarrow> nat \<Rightarrow> bool" where
  "is_permutation p n = (distinct p \<and> set p = {..<n})"

section \<open>Auxiliary facts\<close>

subsection \<open>Bytes of a 16-bit value\<close>

lemma ff_is_mask: "(0xff :: u16) = mask 8"
  by (simp add: mask_eq_exp_minus_1)

lemma unat_u16_bound: "unat (w :: u16) < 65536"
  using unsigned_less [of w, where ?'a = nat] by simp

lemma lo_byte: "unat (ucast (w AND 0xff) :: u8) = unat (w :: u16) mod 256"
  unfolding ff_is_mask
  by (simp add: unsigned_ucast_eq flip: take_bit_eq_mask)
     (simp add: unsigned_take_bit_eq take_bit_eq_mod unat_mod_distrib)

lemma hi_byte: "unat (ucast (drop_bit 8 w AND 0xff) :: u8) = unat (w :: u16) div 256"
proof -
  have "unat (ucast (drop_bit 8 w AND 0xff) :: u8) = (unat w div 256) mod 256"
    unfolding ff_is_mask
    by (simp add: unsigned_ucast_eq flip: take_bit_eq_mask)
       (simp add: unsigned_take_bit_eq take_bit_eq_mod drop_bit_eq_div
          unat_mod_distrib unat_div_distrib)
  moreover have "unat w div 256 < 256"
    using unat_u16_bound [of w] by simp
  ultimately show ?thesis by simp
qed

lemma le16_bytes: "le16 (ucast (w AND 0xff)) (ucast (drop_bit 8 w AND 0xff)) = unat (w :: u16)"
  unfolding le16_def using lo_byte [of w] hi_byte [of w] by presburger

lemma unat_sizeof16: "unat (sizeof16 r) = length r mod 65536"
  by (simp add: sizeof16_def sizeof_Data_def unat_of_nat)

subsection \<open>The sum of the sizes\<close>

lemma fold_plus_sum: "xs \<noteq> [] \<Longrightarrow> fold_plus xs = Inr (sum_list xs)"
  by (induction xs rule: fold_plus.induct) simp_all

lemma word_of_promoted_sum:
  "(word_of_int (sum_list (map (\<lambda>r. uint (sizeof16 r)) rs)) :: u16)
     = of_nat (sum_list (map length rs))"
  by (induction rs) (simp_all add: sizeof16_def sizeof_Data_def)

lemma ReportsSize_nonempty:
  "reports \<noteq> [] \<Longrightarrow> ReportsSize reports = Inr (of_nat (sum_list (map length reports)))"
  by (simp add: ReportsSize_def fold_plus_sum word_of_promoted_sum)

lemma ReportsSize_empty: "ReportsSize [] = Inl IllFormedEmptyFold"
  by (simp add: ReportsSize_def)

lemma promoted_bound: "uint (sizeof16 r) \<le> 65535"
proof -
  have "unat (sizeof16 r) < 65536"
    by (rule unat_u16_bound)
  then have "int (unat (sizeof16 r)) \<le> 65535"
    by linarith
  then show ?thesis
    by (simp only: uint_nat)
qed

lemma promoted_sum_bound:
  "sum_list (map (\<lambda>r. uint (sizeof16 r)) rs) \<le> 65535 * int (length rs)"
proof (induction rs)
  case Nil
  show ?case by simp
next
  case (Cons r rs)
  have s: "sum_list (map (\<lambda>r. uint (sizeof16 r)) (r # rs))
      = uint (sizeof16 r) + sum_list (map (\<lambda>r. uint (sizeof16 r)) rs)"
    by simp
  have l: "int (length (r # rs)) = 1 + int (length rs)"
    by simp
  have arith: "u + S \<le> 65535 * (1 + n)" if "S \<le> 65535 * n" and "u \<le> 65535" for u S n :: int
    using that by (simp add: distrib_left)
  show ?case
    unfolding s l by (rule arith [OF Cons.IH promoted_bound])
qed

lemma promoted_sum_fits_int:
  assumes "length rs \<le> 32768"
  shows "sum_list (map (\<lambda>r. uint (sizeof16 r)) rs) \<le> 2147483647"
proof -
  have "int (length rs) \<le> 32768"
    using assms by linarith
  then show ?thesis
    using promoted_sum_bound [of rs] by linarith
qed

subsection \<open>Memory\<close>

lemma memcpy_outside: "x < a \<or> a + length bs \<le> x \<Longrightarrow> memcpy a bs m x = m x"
  by (induction bs arbitrary: a m) auto

lemma memcpy_append: "memcpy a (xs @ ys) m = memcpy (a + length xs) ys (memcpy a xs m)"
  by (induction xs arbitrary: a m) simp_all

lemma memcpy_inside:
  "a \<le> x \<Longrightarrow> x < a + length bs \<Longrightarrow> memcpy a bs m x = bs ! (x - a)"
proof (induction bs arbitrary: a m)
  case Nil
  then show ?case by simp
next
  case (Cons b bs)
  show ?case
  proof (cases "x = a")
    case True
    then show ?thesis by (simp add: memcpy_outside)
  next
    case False
    with Cons.prems have "a + 1 \<le> x" and "x < (a + 1) + length bs"
      by simp_all
    then have "memcpy (a + 1) bs (m(a := b)) x = bs ! (x - (a + 1))"
      by (rule Cons.IH)
    moreover have "(b # bs) ! (x - a) = bs ! (x - (a + 1))"
      using False Cons.prems(1) by (simp add: nth_Cons')
    ultimately show ?thesis by simp
  qed
qed

lemma memcpy_nth: "i < length bs \<Longrightarrow> memcpy a bs m (a + i) = bs ! i"
  using memcpy_inside [of a "a + i" bs m] by simp

lemma length_load: "length (load m a n) = n"
  by (induction n arbitrary: a) simp_all

lemma nth_load: "i < n \<Longrightarrow> load m a n ! i = m (a + i)"
proof (induction n arbitrary: a i)
  case 0
  then show ?case by simp
next
  case (Suc n)
  then show ?case by (cases i) simp_all
qed

lemma load_memcpy_take: "n \<le> length bs \<Longrightarrow> load (memcpy a bs m) a n = take n bs"
  by (rule nth_equalityI) (simp_all add: length_load nth_load memcpy_nth)

lemma load_memcpy: "load (memcpy a bs m) a (length bs) = bs"
  by (simp add: load_memcpy_take)

lemma length_entry: "length (entry r) = 3"
  by (simp add: entry_def)

lemma FillReportsDescriptors_fold_step:
  "FillReportsDescriptors_fold (r # rs) a m
     = FillReportsDescriptors_fold rs (a + 3) (memcpy a (entry r) m)"
  by (simp add: entry_def Let_def)

lemma FillReportsDescriptors_fold_eq:
  "FillReportsDescriptors_fold rs a m = (a + 3 * length rs, memcpy a (concat (map entry rs)) m)"
proof (induction rs arbitrary: a m)
  case Nil
  show ?case by simp
next
  case (Cons r rs)
  show ?case
    unfolding FillReportsDescriptors_fold_step Cons.IH
    by (simp add: memcpy_append length_entry)
qed

lemma FillReports_fold_eq:
  "FillReports_fold rs a m = (a + length (concat rs), memcpy a (concat rs) m)"
  by (induction rs arbitrary: a m) (simp_all add: sizeof_Data_def memcpy_append add.assoc)

lemma segments_memcpy_concat:
  "segments (memcpy a (concat xss) m) a (map length xss) = xss"
proof (induction xss arbitrary: a m)
  case Nil
  show ?case by simp
next
  case (Cons xs xss)
  have "load (memcpy a (xs @ concat xss) m) a (length xs) = xs"
    by (simp add: load_memcpy_take)
  moreover have "segments (memcpy a (xs @ concat xss) m) (a + length xs) (map length xss) = xss"
    unfolding memcpy_append by (rule Cons.IH)
  ultimately show ?case by simp
qed

lemma length_concat_entries: "length (concat (map entry rs)) = 3 * length rs"
  by (induction rs) (simp_all add: entry_def)

lemma concat_entries_nth:
  assumes "i < length rs"
  shows "concat (map entry rs) ! (3 * i) = 0x22"
    and "concat (map entry rs) ! (3 * i + 1) = ucast (sizeof16 (rs ! i) AND 0xff)"
    and "concat (map entry rs) ! (3 * i + 2) = ucast (drop_bit 8 (sizeof16 (rs ! i)) AND 0xff)"
  using assms
proof (induction rs arbitrary: i)
  case Nil
  {
    case 1 then show ?case by simp
  next
    case 2 then show ?case by simp
  next
    case 3 then show ?case by simp
  }
next
  case (Cons r rs)
  {
    case 1 then show ?case using Cons.IH(1) [of "i - 1"] by (cases i) (simp_all add: entry_def)
  next
    case 2 then show ?case using Cons.IH(2) [of "i - 1"] by (cases i) (simp_all add: entry_def)
  next
    case 3 then show ?case using Cons.IH(3) [of "i - 1"] by (cases i) (simp_all add: entry_def)
  }
qed

subsection \<open>The sub-descriptor entries\<close>

lemma FillReportsDescriptors_snd:
  "snd (FillReportsDescriptors rs a m) = memcpy a (concat (map entry rs)) m"
  by (simp add: FillReportsDescriptors_def FillReportsDescriptors_fold_eq)

lemma FillReportsDescriptors_fst:
  "fst (FillReportsDescriptors rs a m) = of_nat (3 * length rs)"
  by (simp add: FillReportsDescriptors_def)

lemma entries_type_byte:
  assumes "i < length rs"
  shows "memcpy a (concat (map entry rs)) m (a + 3 * i) = 0x22"
proof -
  have "3 * i < length (concat (map entry rs))"
    using assms by (simp add: length_concat_entries)
  then show ?thesis
    by (simp add: memcpy_nth concat_entries_nth(1) [OF assms])
qed

lemma entries_wDescriptorLength:
  assumes "i < length rs"
  shows "wDescriptorLength (memcpy a (concat (map entry rs)) m) a i = length (rs ! i) mod 65536"
proof -
  have "3 * i + 1 < length (concat (map entry rs))" "3 * i + 2 < length (concat (map entry rs))"
    using assms by (simp_all add: length_concat_entries)
  then have "memcpy a (concat (map entry rs)) m (a + (3 * i + 1)) = ucast (sizeof16 (rs ! i) AND 0xff)"
    and "memcpy a (concat (map entry rs)) m (a + (3 * i + 2)) = ucast (drop_bit 8 (sizeof16 (rs ! i)) AND 0xff)"
    by (simp_all only: memcpy_nth concat_entries_nth(2,3) [OF assms])
  then show ?thesis
    by (simp only: wDescriptorLength_def add.assoc le16_bytes unat_sizeof16)
qed

lemma entries_outside:
  "x < a \<or> a + 3 * length rs \<le> x \<Longrightarrow> memcpy a (concat (map entry rs)) m x = m x"
  by (rule memcpy_outside) (simp add: length_concat_entries)

lemma unat_u16_of_nat: "unat (of_nat n :: u16) = n mod 65536"
  by (simp add: unat_of_nat)

lemma unat_u8_of_nat: "unat (of_nat n :: u8) = n mod 256"
  by (simp add: unat_of_nat)

lemma FillReportsDescriptors_ret:
  "unat (fst (FillReportsDescriptors rs a m)) = 3 * length rs mod 65536"
  unfolding FillReportsDescriptors_fst by (rule unat_u16_of_nat)

lemma FillReportsDescriptors_type_byte:
  "i < length rs \<Longrightarrow> snd (FillReportsDescriptors rs a m) (a + 3 * i) = 0x22"
  unfolding FillReportsDescriptors_snd by (rule entries_type_byte)

lemma FillReportsDescriptors_length_field:
  "i < length rs \<Longrightarrow>
     wDescriptorLength (snd (FillReportsDescriptors rs a m)) a i = length (rs ! i) mod 65536"
  unfolding FillReportsDescriptors_snd by (rule entries_wDescriptorLength)

lemma FillReportsDescriptors_outside:
  "x < a \<or> a + 3 * length rs \<le> x \<Longrightarrow> snd (FillReportsDescriptors rs a m) x = m x"
  unfolding FillReportsDescriptors_snd by (rule entries_outside)

subsection \<open>The class descriptor\<close>

lemma length_HidImpl_bytes: "length (HidImpl_bytes h) = 6"
  by (simp add: HidImpl_bytes_def)

lemma FillDescriptor_HidImpl_snd:
  "snd (FillDescriptor_HidImpl v rs a m)
     = snd (FillReportsDescriptors rs (a + 6) (memcpy a (HidImpl_bytes (HidImpl_init v rs)) m))"
  by (simp add: FillDescriptor_HidImpl_def store_HidImpl_def Let_def split_beta)

lemma FillDescriptor_HidImpl_fst:
  "fst (FillDescriptor_HidImpl v rs a m) = of_nat (6 + 3 * length rs)"
  by (simp add: FillDescriptor_HidImpl_def FillReportsDescriptors_def Let_def)

lemma FillDescriptor_HidImpl_ret:
  "unat (fst (FillDescriptor_HidImpl v rs a m)) = (6 + 3 * length rs) mod 65536"
  unfolding FillDescriptor_HidImpl_fst by (rule unat_u16_of_nat)

lemma FillDescriptor_HidImpl_header:
  assumes "k < 6"
  shows "snd (FillDescriptor_HidImpl v rs a m) (a + k) = HidImpl_bytes (HidImpl_init v rs) ! k"
proof -
  have "snd (FillDescriptor_HidImpl v rs a m) (a + k)
      = memcpy a (HidImpl_bytes (HidImpl_init v rs)) m (a + k)"
    unfolding FillDescriptor_HidImpl_snd using assms
    by (intro FillReportsDescriptors_outside) simp
  also have "\<dots> = HidImpl_bytes (HidImpl_init v rs) ! k"
    using assms by (simp add: memcpy_nth length_HidImpl_bytes)
  finally show ?thesis .
qed

lemma FillDescriptor_HidImpl_outside:
  assumes "x < a \<or> a + 6 + 3 * length rs \<le> x"
  shows "snd (FillDescriptor_HidImpl v rs a m) x = m x"
proof -
  have "snd (FillDescriptor_HidImpl v rs a m) x = memcpy a (HidImpl_bytes (HidImpl_init v rs)) m x"
    unfolding FillDescriptor_HidImpl_snd using assms
    by (intro FillReportsDescriptors_outside) auto
  also have "\<dots> = m x"
    using assms by (intro memcpy_outside) (auto simp: length_HidImpl_bytes)
  finally show ?thesis .
qed

lemma FillDescriptor_HidImpl_bLength:
  "snd (FillDescriptor_HidImpl v rs a m) a = of_nat (6 + 3 * length rs)"
  using FillDescriptor_HidImpl_header [of 0 v rs a m]
  by (simp add: HidImpl_bytes_def HidImpl_init_def)

lemma FillDescriptor_HidImpl_bytes:
  "unat (snd (FillDescriptor_HidImpl v rs a m) a) = (6 + 3 * length rs) mod 256"
  "snd (FillDescriptor_HidImpl v rs a m) (a + 1) = 0x21"
  "le16 (snd (FillDescriptor_HidImpl v rs a m) (a + 2)) (snd (FillDescriptor_HidImpl v rs a m) (a + 3))
     = unat v"
  "snd (FillDescriptor_HidImpl v rs a m) (a + 4) = 0"
  "unat (snd (FillDescriptor_HidImpl v rs a m) (a + 5)) = length rs mod 256"
proof -
  note h = FillDescriptor_HidImpl_header [of _ v rs a m]
  show "unat (snd (FillDescriptor_HidImpl v rs a m) a) = (6 + 3 * length rs) mod 256"
    unfolding FillDescriptor_HidImpl_bLength by (rule unat_u8_of_nat)
  show "snd (FillDescriptor_HidImpl v rs a m) (a + 1) = 0x21"
    using h [of 1] by (simp add: HidImpl_bytes_def HidImpl_init_def)
  have "snd (FillDescriptor_HidImpl v rs a m) (a + 2) = ucast (v AND 0xff)"
    using h [of 2] by (simp add: HidImpl_bytes_def HidImpl_init_def)
  moreover have "snd (FillDescriptor_HidImpl v rs a m) (a + 3) = ucast (drop_bit 8 v AND 0xff)"
    using h [of 3] by (simp add: HidImpl_bytes_def HidImpl_init_def)
  ultimately show "le16 (snd (FillDescriptor_HidImpl v rs a m) (a + 2))
      (snd (FillDescriptor_HidImpl v rs a m) (a + 3)) = unat v"
    by (simp only: le16_bytes)
  show "snd (FillDescriptor_HidImpl v rs a m) (a + 4) = 0"
    using h [of 4] by (simp add: HidImpl_bytes_def HidImpl_init_def)
  have "snd (FillDescriptor_HidImpl v rs a m) (a + 5) = of_nat (length rs)"
    using h [of 5] by (simp add: HidImpl_bytes_def HidImpl_init_def)
  then show "unat (snd (FillDescriptor_HidImpl v rs a m) (a + 5)) = length rs mod 256"
    by (simp only: unat_u8_of_nat)
qed

lemma FillDescriptor_HidImpl_entry:
  assumes "i < length rs"
  shows "snd (FillDescriptor_HidImpl v rs a m) (a + 6 + 3 * i) = 0x22"
    and "wDescriptorLength (snd (FillDescriptor_HidImpl v rs a m)) (a + 6) i
           = length (rs ! i) mod 65536"
  unfolding FillDescriptor_HidImpl_snd
  using assms by (simp_all only: FillReportsDescriptors_type_byte FillReportsDescriptors_length_field)

lemma nth_length_le_sum: "i < length rs \<Longrightarrow> length (rs ! i) \<le> sum_list (map length rs)"
  using elem_le_sum_list [of i "map length rs"] by simp

subsection \<open>The report blob\<close>

lemma FillReports_nonempty:
  "rs \<noteq> [] \<Longrightarrow>
     FillReports rs a m = Inr (of_nat (sum_list (map length rs)), memcpy a (concat rs) m)"
  by (simp add: FillReports_def ReportsSize_nonempty FillReports_fold_eq)

lemma FillReports_empty: "FillReports [] a m = Inl IllFormedEmptyFold"
  by (simp add: FillReports_def ReportsSize_empty)

lemma FillReports_fold_cursor:
  "fst (FillReports_fold rs a m) = a + sum_list (map length rs)"
  by (simp add: FillReports_fold_eq length_concat)

lemma FillDescriptor_HidImpl_load:
  "load (snd (FillDescriptor_HidImpl v rs a m)) a (6 + 3 * length rs)
     = HidImpl_bytes (HidImpl_init v rs) @ concat (map entry rs)"
proof -
  have "snd (FillDescriptor_HidImpl v rs a m)
      = memcpy a (HidImpl_bytes (HidImpl_init v rs) @ concat (map entry rs)) m"
    by (simp add: FillDescriptor_HidImpl_snd FillReportsDescriptors_snd memcpy_append
          length_HidImpl_bytes)
  moreover have "6 + 3 * length rs
      = length (HidImpl_bytes (HidImpl_init v rs) @ concat (map entry rs))"
    by (simp add: length_HidImpl_bytes length_concat_entries)
  ultimately show ?thesis
    by (simp only: load_memcpy)
qed

subsection \<open>Length fields and permutations\<close>

lemma length_fields_eq:
  "map (wDescriptorLength (snd (FillReportsDescriptors rs a m)) a) [0..<length rs]
     = map (\<lambda>r. length r mod 65536) rs"
  by (rule nth_equalityI) (simp_all add: FillReportsDescriptors_length_field)

lemma length_fields_exact:
  assumes "\<forall>r\<in>set rs. length r \<le> 65535"
  shows "map (wDescriptorLength (snd (FillReportsDescriptors rs a m)) a) [0..<length rs]
     = map length rs"
  unfolding length_fields_eq
proof (intro map_cong refl)
  fix r
  assume "r \<in> set rs"
  with assms have "length r < 65536"
    by fastforce
  then show "length r mod 65536 = length r"
    by simp
qed

lemma lengths_of_entries: "map length (map entry rs) = replicate (length rs) 3"
  by (induction rs) (simp_all add: length_entry)

lemma entries_segments:
  "segments (snd (FillReportsDescriptors rs a m)) a (replicate (length rs) 3) = map entry rs"
  unfolding FillReportsDescriptors_snd lengths_of_entries [symmetric]
  by (rule segments_memcpy_concat)

lemma length_is_permutation: "is_permutation p n \<Longrightarrow> length p = n"
  using distinct_card [of p] by (simp add: is_permutation_def)

lemma length_permute: "length (permute p xs) = length p"
  by (simp add: permute_def)

lemma map_permute:
  "is_permutation p (length xs) \<Longrightarrow> map f (permute p xs) = permute p (map f xs)"
  by (auto simp: permute_def is_permutation_def)

lemma sum_list_permute:
  fixes xs :: "nat list"
  assumes "is_permutation p (length xs)"
  shows "sum_list (permute p xs) = sum_list xs"
proof -
  have "sum_list (permute p xs) = sum ((!) xs) (set p)"
    using assms unfolding permute_def is_permutation_def
    by (simp add: sum_list_distinct_conv_sum_set)
  also have "\<dots> = sum ((!) xs) {0..<length xs}"
    using assms by (simp add: is_permutation_def atLeast0LessThan)
  also have "\<dots> = sum_list xs"
    by (simp add: sum_list_sum_nth)
  finally show ?thesis .
qed

lemma sum_lengths_permute:
  "is_permutation p (length rs) \<Longrightarrow>
     sum_list (map length (permute p rs)) = sum_list (map length rs)"
  using sum_list_permute [of p "map length rs"] by (simp add: map_permute)

subsection \<open>The clamp\<close>

lemma unat_clamp:
  "unat (if (l :: u16) < s then l else s) = min (unat l) (unat s)"
  by (simp add: word_less_nat_alt min_def)

lemma map_sizeof_Data: "map sizeof_Data rs = map length rs"
  by (simp add: sizeof_Data_def)

section \<open>The claims\<close>

subsection \<open>ReportsSize\<close>

text \<open>
  Claim C10. For every non-empty report list, \<open>ReportsSize\<close> returns the sum of the
  report byte lengths reduced modulo \<open>2^16\<close>: a total above 65535 wraps around
  silently.
\<close>

theorem ReportsSize_wraps_mod_65536:
  "reports \<noteq> [] \<Longrightarrow>
     \<exists>w. ReportsSize reports = Inr w \<and> unat w = sum_list (map length reports) mod 65536"
  by (simp add: ReportsSize_nonempty unat_of_nat)

text \<open>Two reports of 40000 bytes: 80000 bytes in all, and the result is 14464.\<close>

theorem ReportsSize_wraps_mod_65536_witness:
  "\<exists>w. ReportsSize [replicate 40000 0, replicate 40000 0] = Inr w \<and> unat w = 14464"
  using ReportsSize_wraps_mod_65536 [of "[replicate 40000 0, replicate 40000 0]"] by simp




subsection \<open>FillReportsDescriptors\<close>

text \<open>
  Claim C3, as stated: for every report list, \<open>FillReportsDescriptors\<close> writes for each
  report 0x22 and the report's byte length as a little-endian 16-bit number, and
  returns 3 times the number of reports. The result and the length field are 16-bit
  values: for 21846 reports the function returns 2, not 65538, and for a report of 65536
  bytes the length field holds 0.
\<close>

theorem FillReportsDescriptors_counterexample:
  "unat (fst (FillReportsDescriptors (replicate 21846 [0]) 0 blank)) = 2
   \<and> 3 * length (replicate 21846 [0 :: u8]) = 65538
   \<and> wDescriptorLength (snd (FillReportsDescriptors [replicate 65536 0] 0 blank)) 0 0 = 0
   \<and> length (replicate 65536 (0 :: u8)) = 65536"
  using FillReportsDescriptors_length_field [of 0 "[replicate 65536 0]" 0 blank]
  by (simp add: FillReportsDescriptors_ret)

text \<open>
  Claim C3, amended. For every report list, \<open>FillReportsDescriptors\<close> writes for the
  \<open>i\<close>-th report, at the three addresses from \<open>a + 3 * i\<close> on, the byte 0x22 and the
  report's byte length modulo \<open>2^16\<close>, low byte first (the length itself when it is at
  most 65535); it changes no address outside the \<open>3 * N\<close> bytes from \<open>a\<close> on; and it
  returns \<open>3 * N\<close> modulo \<open>2^16\<close>, which is \<open>3 * N\<close> for up to 21845 reports.
\<close>

theorem FillReportsDescriptors_entries:
  "(\<forall>i<length reports.
       snd (FillReportsDescriptors reports a m) (a + 3 * i) = 0x22
     \<and> wDescriptorLength (snd (FillReportsDescriptors reports a m)) a i
         = length (reports ! i) mod 65536
     \<and> (length (reports ! i) \<le> 65535 \<longrightarrow>
         wDescriptorLength (snd (FillReportsDescriptors reports a m)) a i = length (reports ! i)))
   \<and> (\<forall>x. x < a \<or> a + 3 * length reports \<le> x \<longrightarrow>
         snd (FillReportsDescriptors reports a m) x = m x)
   \<and> unat (fst (FillReportsDescriptors reports a m)) = 3 * length reports mod 65536
   \<and> (length reports \<le> 21845 \<longrightarrow>
         unat (fst (FillReportsDescriptors reports a m)) = 3 * length reports)"
  by (simp add: FillReportsDescriptors_type_byte FillReportsDescriptors_length_field
        FillReportsDescriptors_outside FillReportsDescriptors_ret)

theorem FillReportsDescriptors_entries_witness:
  "snd (FillReportsDescriptors [[5, 1, 9, 6], [6, 0, 255]] 0 blank) 3 = 0x22
   \<and> wDescriptorLength (snd (FillReportsDescriptors [[5, 1, 9, 6], [6, 0, 255]] 0 blank)) 0 1 = 3
   \<and> snd (FillReportsDescriptors [[5, 1, 9, 6], [6, 0, 255]] 0 blank) 6 = 0
   \<and> unat (fst (FillReportsDescriptors [[5, 1, 9, 6], [6, 0, 255]] 0 blank)) = 6"
proof -
  note t = FillReportsDescriptors_entries [of "[[5, 1, 9, 6], [6, 0, 255]]" 0 blank]
  have e: "snd (FillReportsDescriptors [[5, 1, 9, 6], [6, 0, 255]] 0 blank) 3 = 0x22
     \<and> wDescriptorLength (snd (FillReportsDescriptors [[5, 1, 9, 6], [6, 0, 255]] 0 blank)) 0 1 = 3"
    using t [THEN conjunct1, rule_format, of 1] by simp
  have o: "snd (FillReportsDescriptors [[5, 1, 9, 6], [6, 0, 255]] 0 blank) 6 = blank 6"
    using t [THEN conjunct2, THEN conjunct1, rule_format, of 6] by simp
  have r: "unat (fst (FillReportsDescriptors [[5, 1, 9, 6], [6, 0, 255]] 0 blank)) = 6"
    using t [THEN conjunct2, THEN conjunct2, THEN conjunct1] by simp
  from e o r show ?thesis
    by (simp add: blank_def)
qed

subsection \<open>The HID class descriptor\<close>

text \<open>
  Claim C2, as stated: for every report list of \<open>N\<close> reports with a total size of at most
  65535 bytes, the \<open>bLength\<close> byte written equals the \<open>6 + 3 * N\<close> bytes written. The
  member \<open>Length\<close> is a \<^verbatim>\<open>uint8_t\<close>: for 84 reports of one byte, 258 bytes are written and
  \<open>bLength\<close> is 2.
\<close>

theorem FillDescriptor_HidImpl_counterexample:
  "sum_list (map length (replicate 84 [0 :: u8])) \<le> 65535
   \<and> 6 + 3 * length (replicate 84 [0 :: u8]) = 258
   \<and> unat (snd (FillDescriptor_HidImpl 0x0200 (replicate 84 [0]) 0 blank) 0) = 2"
  by (simp add: FillDescriptor_HidImpl_bLength sum_list_replicate)

text \<open>
  Claim C2, amended. For every report list of \<open>N\<close> reports and every version, the HID part
  of \<open>FillDescriptor\<close> writes the header bytes \<open>(6 + 3 * N) mod 256\<close>, 0x21, the version
  with its low byte first, 0 and \<open>N mod 256\<close>, then one entry per report (0x22 and the
  report's length modulo \<open>2^16\<close>, which is the length when the total size is at most
  65535), changes nothing outside these \<open>6 + 3 * N\<close> bytes and adds
  \<open>(6 + 3 * N) mod 2^16\<close> to the total. For \<open>N \<le> 83\<close> the result is \<open>6 + 3 * N\<close>, the
  \<open>bLength\<close> byte equals it and the count byte is \<open>N\<close>.
\<close>

theorem FillDescriptor_HidImpl_layout:
  assumes "FillDescriptor_HidImpl version reports a m = (ret, m')"
  shows "unat (m' a) = (6 + 3 * length reports) mod 256
       \<and> m' (a + 1) = 0x21
       \<and> le16 (m' (a + 2)) (m' (a + 3)) = unat version
       \<and> m' (a + 4) = 0
       \<and> unat (m' (a + 5)) = length reports mod 256
       \<and> (\<forall>i<length reports. m' (a + 6 + 3 * i) = 0x22
             \<and> wDescriptorLength m' (a + 6) i = length (reports ! i) mod 65536)
       \<and> (sum_list (map length reports) \<le> 65535 \<longrightarrow>
             (\<forall>i<length reports. wDescriptorLength m' (a + 6) i = length (reports ! i)))
       \<and> (\<forall>x. x < a \<or> a + 6 + 3 * length reports \<le> x \<longrightarrow> m' x = m x)
       \<and> unat ret = (6 + 3 * length reports) mod 65536
       \<and> (length reports \<le> 83 \<longrightarrow>
             unat ret = 6 + 3 * length reports
           \<and> unat (m' a) = 6 + 3 * length reports
           \<and> unat (m' (a + 5)) = length reports)"
proof -
  have ret: "ret = fst (FillDescriptor_HidImpl version reports a m)"
    and m': "m' = snd (FillDescriptor_HidImpl version reports a m)"
    using assms by simp_all
  have fits: "wDescriptorLength m' (a + 6) i = length (reports ! i)"
    if "sum_list (map length reports) \<le> 65535" and "i < length reports" for i
  proof -
    have "length (reports ! i) \<le> 65535"
      using nth_length_le_sum [OF that(2)] that(1) by linarith
    then show ?thesis
      unfolding m' by (simp add: FillDescriptor_HidImpl_entry(2) [OF that(2)])
  qed
  note b = FillDescriptor_HidImpl_bytes [of version reports a m, folded m']
  have e: "\<forall>i<length reports. m' (a + 6 + 3 * i) = 0x22
      \<and> wDescriptorLength m' (a + 6) i = length (reports ! i) mod 65536"
    unfolding m' using FillDescriptor_HidImpl_entry [of _ reports version a m] by blast
  have f: "sum_list (map length reports) \<le> 65535 \<longrightarrow>
      (\<forall>i<length reports. wDescriptorLength m' (a + 6) i = length (reports ! i))"
    using fits by blast
  have out: "\<forall>x. x < a \<or> a + 6 + 3 * length reports \<le> x \<longrightarrow> m' x = m x"
    unfolding m' using FillDescriptor_HidImpl_outside by blast
  have r: "unat ret = (6 + 3 * length reports) mod 65536"
    unfolding ret by (rule FillDescriptor_HidImpl_ret)
  have small: "length reports \<le> 83 \<longrightarrow>
             unat ret = 6 + 3 * length reports
           \<and> unat (m' a) = 6 + 3 * length reports
           \<and> unat (m' (a + 5)) = length reports"
    unfolding r b by simp
  from b e f out r small show ?thesis
    by blast
qed

theorem FillDescriptor_HidImpl_layout_witness:
  "unat (snd (FillDescriptor_HidImpl 0x0200 [[5, 1, 9, 6], [6, 0, 255]] 0 blank) 0) = 12
   \<and> unat (fst (FillDescriptor_HidImpl 0x0200 [[5, 1, 9, 6], [6, 0, 255]] 0 blank)) = 12
   \<and> unat (snd (FillDescriptor_HidImpl 0x0200 [[5, 1, 9, 6], [6, 0, 255]] 0 blank) 5) = 2
   \<and> wDescriptorLength (snd (FillDescriptor_HidImpl 0x0200 [[5, 1, 9, 6], [6, 0, 255]] 0 blank)) 6 0 = 4"
proof -
  have run: "FillDescriptor_HidImpl 0x0200 [[5, 1, 9, 6], [6, 0, 255]] 0 blank
      = (fst (FillDescriptor_HidImpl 0x0200 [[5, 1, 9, 6], [6, 0, 255]] 0 blank),
         snd (FillDescriptor_HidImpl 0x0200 [[5, 1, 9, 6], [6, 0, 255]] 0 blank))"
    by simp
  note t = FillDescriptor_HidImpl_layout [OF run]
  have total: "sum_list (map length [[5, 1, 9, 6], [6, 0, 255 :: u8]]) = 7"
    by simp
  have f: "wDescriptorLength (snd (FillDescriptor_HidImpl 0x0200 [[5, 1, 9, 6], [6, 0, 255]] 0 blank)) 6 0 = 4"
    using t [THEN conjunct2, THEN conjunct2, THEN conjunct2, THEN conjunct2, THEN conjunct2,
             THEN conjunct2, THEN conjunct1, rule_format, of 0]
    unfolding total by simp
  have "length [[5, 1, 9, 6], [6, 0, 255 :: u8]] \<le> 83"
    by simp
  with t f show ?thesis
    by simp
qed

subsection \<open>The example and the empty list\<close>

text \<open>
  Claim C5. For the reports \<open>[0x05, 0x01, 0x09, 0x06]\<close> and \<open>[0x06, 0x00, 0xFF]\<close> and the
  version 0x0200 the descriptor is the 12 bytes
  \<open>0x0C, 0x21, 0x00, 0x02, 0x00, 0x02, 0x22, 0x04, 0x00, 0x22, 0x03, 0x00\<close> and the blob
  is the 7 bytes \<open>0x05, 0x01, 0x09, 0x06, 0x06, 0x00, 0xFF\<close>.
\<close>

theorem example_descriptor_and_blob:
  "fst (FillDescriptor_HidImpl 0x0200 [[0x05, 0x01, 0x09, 0x06], [0x06, 0x00, 0xFF]] a m) = 12
   \<and> load (snd (FillDescriptor_HidImpl 0x0200 [[0x05, 0x01, 0x09, 0x06], [0x06, 0x00, 0xFF]] a m)) a 12
       = [0x0C, 0x21, 0x00, 0x02, 0x00, 0x02, 0x22, 0x04, 0x00, 0x22, 0x03, 0x00]
   \<and> ReportsSize [[0x05, 0x01, 0x09, 0x06], [0x06, 0x00, 0xFF]] = Inr 7
   \<and> (\<exists>m'. FillReports [[0x05, 0x01, 0x09, 0x06], [0x06, 0x00, 0xFF]] b m = Inr (7, m')
         \<and> load m' b 7 = [0x05, 0x01, 0x09, 0x06, 0x06, 0x00, 0xFF])"
proof -
  let ?rs = "[[0x05, 0x01, 0x09, 0x06], [0x06, 0x00, 0xFF :: u8]]"
  have d: "load (snd (FillDescriptor_HidImpl 0x0200 ?rs a m)) a 12
      = [0x0C, 0x21, 0x00, 0x02, 0x00, 0x02, 0x22, 0x04, 0x00, 0x22, 0x03, 0x00]"
    using FillDescriptor_HidImpl_load [of "0x0200" ?rs a m]
    by (simp add: HidImpl_bytes_def HidImpl_init_def entry_def sizeof16_def sizeof_Data_def)
  have r: "fst (FillDescriptor_HidImpl 0x0200 ?rs a m) = 12"
    by (simp add: FillDescriptor_HidImpl_fst)
  have s: "ReportsSize ?rs = Inr 7"
    by (simp add: ReportsSize_nonempty)
  have l: "load (memcpy b (concat ?rs) m) b 7 = [0x05, 0x01, 0x09, 0x06, 0x06, 0x00, 0xFF]"
    using load_memcpy_take [of 7 "concat ?rs" b m] by simp
  have f: "FillReports ?rs b m = Inr (7, memcpy b (concat ?rs) m)"
    by (simp add: FillReports_nonempty)
  from d r s l f show ?thesis
    by blast
qed

theorem example_descriptor_and_blob_witness:
  "load (snd (FillDescriptor_HidImpl 0x0200 [[0x05, 0x01, 0x09, 0x06], [0x06, 0x00, 0xFF]] 0 blank)) 0 12
       = [0x0C, 0x21, 0x00, 0x02, 0x00, 0x02, 0x22, 0x04, 0x00, 0x22, 0x03, 0x00]"
  using example_descriptor_and_blob [of 0 blank 0] by blast

text \<open>
  Claim C6, as stated: for the empty report list \<open>ReportsSize\<close> is 0 and the blob is
  empty. \<open>ReportsSize\<close> is a unary fold over \<^verbatim>\<open>+\<close>, which is ill-formed for the empty
  pack, and \<open>FillReports\<close> calls it: neither has a value for the empty list.
\<close>

theorem empty_list_counterexample:
  "ReportsSize [] = Inl IllFormedEmptyFold \<and> FillReports [] 0 blank = Inl IllFormedEmptyFold"
  by (simp add: ReportsSize_empty FillReports_empty)

text \<open>
  Claim C6, amended. For the empty report list the descriptor is exactly the 6-byte
  header, with \<open>bLength = 6\<close> and \<open>bNumDescriptors = 0\<close>, and no entry is written;
  \<open>ReportsSize\<close> and \<open>FillReports\<close> are ill-formed for it and give no size and no blob.
\<close>

theorem empty_list_descriptor:
  "fst (FillDescriptor_HidImpl version [] a m) = 6
   \<and> load (snd (FillDescriptor_HidImpl version [] a m)) a 6
       = [6, 0x21, ucast (version AND 0xff), ucast (drop_bit 8 version AND 0xff), 0, 0]
   \<and> (\<forall>x. x < a \<or> a + 6 \<le> x \<longrightarrow> snd (FillDescriptor_HidImpl version [] a m) x = m x)
   \<and> FillReportsDescriptors [] a m = (0, m)
   \<and> ReportsSize [] = Inl IllFormedEmptyFold
   \<and> FillReports [] a m = Inl IllFormedEmptyFold"
proof -
  have l: "load (snd (FillDescriptor_HidImpl version [] a m)) a 6
       = [6, 0x21, ucast (version AND 0xff), ucast (drop_bit 8 version AND 0xff), 0, 0]"
    using FillDescriptor_HidImpl_load [of version "[]" a m]
    by (simp add: HidImpl_bytes_def HidImpl_init_def)
  have o: "\<forall>x. x < a \<or> a + 6 \<le> x \<longrightarrow> snd (FillDescriptor_HidImpl version [] a m) x = m x"
    using FillDescriptor_HidImpl_outside [of _ a "[]" version m] by simp
  have r: "fst (FillDescriptor_HidImpl version [] a m) = 6"
    by (simp add: FillDescriptor_HidImpl_fst)
  have e: "FillReportsDescriptors [] a m = (0, m)"
    by (simp add: FillReportsDescriptors_def)
  from l o r e ReportsSize_empty FillReports_empty [of a m] show ?thesis
    by blast
qed

theorem empty_list_descriptor_witness:
  "load (snd (FillDescriptor_HidImpl 0x0200 [] 0 blank)) 0 6 = [6, 0x21, 0x00, 0x02, 0, 0]
   \<and> snd (FillDescriptor_HidImpl 0x0200 [] 0 blank) 6 = 0
   \<and> fst (FillDescriptor_HidImpl 0x0200 [] 0 blank) = 6"
proof -
  note t = empty_list_descriptor [of "0x0200" 0 blank]
  have "snd (FillDescriptor_HidImpl 0x0200 [] 0 blank) 6 = blank 6"
    using t [THEN conjunct2, THEN conjunct2, THEN conjunct1, rule_format, of 6] by simp
  with t show ?thesis
    by (simp add: blank_def)
qed

subsection \<open>FillReports\<close>

text \<open>
  Claim C4, as stated: for every report list \<open>FillReports\<close> returns the total number of
  bytes written. The result is the 16-bit \<open>ReportsSize\<close>: for two reports of 32768
  bytes the cursor advances by 65536 bytes and the function returns 0.
\<close>

theorem FillReports_counterexample:
  "fst (FillReports_fold [replicate 32768 0, replicate 32768 0] 0 blank) = 65536
   \<and> map_sum id fst (FillReports [replicate 32768 0, replicate 32768 0] 0 blank) = Inr 0"
  by (simp add: FillReports_fold_cursor FillReports_nonempty sizeof_Data_def)

text \<open>
  Claim C4, amended. For every non-empty report list \<open>FillReports\<close> writes the bytes of
  the reports, in list order and contiguously, from the address on, changes nothing
  else, and returns \<open>ReportsSize\<close> of the list: the number of bytes written modulo
  \<open>2^16\<close>, which is that number when it is at most 65535.
\<close>

theorem FillReports_writes_blob:
  assumes "reports \<noteq> []"
  shows "\<exists>ret m'. FillReports reports a m = Inr (ret, m')
      \<and> segments m' a (map length reports) = reports
      \<and> load m' a (length (concat reports)) = concat reports
      \<and> (\<forall>x. x < a \<or> a + length (concat reports) \<le> x \<longrightarrow> m' x = m x)
      \<and> fst (FillReports_fold reports a m) = a + length (concat reports)
      \<and> ReportsSize reports = Inr ret
      \<and> unat ret = length (concat reports) mod 65536
      \<and> (length (concat reports) \<le> 65535 \<longrightarrow> unat ret = length (concat reports))"
proof -
  let ?ret = "of_nat (sum_list (map length reports)) :: u16"
  let ?m' = "memcpy a (concat reports) m"
  have run: "FillReports reports a m = Inr (?ret, ?m')"
    using assms by (rule FillReports_nonempty)
  have seg: "segments ?m' a (map length reports) = reports"
    by (rule segments_memcpy_concat)
  have ld: "load ?m' a (length (concat reports)) = concat reports"
    by (rule load_memcpy)
  have out: "\<forall>x. x < a \<or> a + length (concat reports) \<le> x \<longrightarrow> ?m' x = m x"
    using memcpy_outside by blast
  have cur: "fst (FillReports_fold reports a m) = a + length (concat reports)"
    by (simp add: FillReports_fold_eq)
  have sz: "ReportsSize reports = Inr ?ret"
    using assms by (rule ReportsSize_nonempty)
  have u: "unat ?ret = length (concat reports) mod 65536"
    by (simp only: unat_u16_of_nat length_concat)
  then have fit: "length (concat reports) \<le> 65535 \<longrightarrow> unat ?ret = length (concat reports)"
    by simp
  from run seg ld out cur sz u fit show ?thesis
    by blast
qed

theorem FillReports_writes_blob_witness:
  "\<exists>ret m'. FillReports [[5, 1, 9, 6], [6, 0, 255]] 0 blank = Inr (ret, m')
      \<and> segments m' 0 (map length [[5, 1, 9, 6], [6, 0, 255 :: u8]]) = [[5, 1, 9, 6], [6, 0, 255]]
      \<and> unat ret = 7"
proof -
  have ne: "[[5, 1, 9, 6], [6, 0, 255 :: u8]] \<noteq> []"
    by simp
  have len: "length (concat [[5, 1, 9, 6], [6, 0, 255 :: u8]]) = 7"
    by simp
  have "(7 :: nat) \<le> 65535"
    by simp
  with FillReports_writes_blob [OF ne, of 0 blank] show ?thesis
    unfolding len by blast
qed

subsection \<open>The two passes over the list\<close>

text \<open>
  Claim C7, as stated: for every report list the length fields that
  \<open>FillReportsDescriptors\<close> writes sum to the number of bytes \<open>FillReports\<close> writes. For
  reports of 65536, 32768 and 32768 bytes the fields hold 0, 32768 and 32768 and sum to
  65536, while \<open>FillReports\<close> advances its cursor by 131072 bytes and returns 0.
\<close>

theorem length_fields_counterexample:
  "sum_list (map (wDescriptorLength (snd (FillReportsDescriptors
        [replicate 65536 0, replicate 32768 0, replicate 32768 0] 0 blank)) 0) [0..<3]) = 65536
   \<and> fst (FillReports_fold [replicate 65536 0, replicate 32768 0, replicate 32768 0] 0 blank) = 131072
   \<and> map_sum id fst (FillReports [replicate 65536 0, replicate 32768 0, replicate 32768 0] 0 blank)
       = Inr 0"
proof -
  have "length [replicate 65536 0, replicate 32768 0, replicate 32768 (0 :: u8)] = 3"
    by simp
  from length_fields_eq [of "[replicate 65536 0, replicate 32768 0, replicate 32768 0]" 0 blank,
      unfolded this]
  show ?thesis
    by (simp add: FillReports_fold_cursor FillReports_nonempty sizeof_Data_def)
qed

text \<open>
  Claim C7, amended. For every non-empty report list whose reports have at most 65535
  bytes each, the length fields that \<open>FillReportsDescriptors\<close> writes sum to exactly the
  number of bytes by which \<open>FillReports\<close> advances its cursor, these bytes are the
  reports in list order, and the sum is the result of \<open>FillReports\<close> when it is at most
  65535.
\<close>

theorem length_fields_sum_to_blob_length:
  assumes "reports \<noteq> []" and "\<forall>r\<in>set reports. length r \<le> 65535"
  shows "\<exists>ret m'. FillReports reports b m0 = Inr (ret, m')
      \<and> sum_list (map (wDescriptorLength (snd (FillReportsDescriptors reports a m)) a)
            [0..<length reports])
          = fst (FillReports_fold reports b m0) - b
      \<and> load m' b (sum_list (map (wDescriptorLength (snd (FillReportsDescriptors reports a m)) a)
            [0..<length reports])) = concat reports
      \<and> (length (concat reports) \<le> 65535 \<longrightarrow>
           unat ret = sum_list (map (wDescriptorLength (snd (FillReportsDescriptors reports a m)) a)
             [0..<length reports]))"
proof -
  let ?ret = "of_nat (sum_list (map length reports)) :: u16"
  let ?m' = "memcpy b (concat reports) m0"
  have fields: "sum_list (map (wDescriptorLength (snd (FillReportsDescriptors reports a m)) a)
      [0..<length reports]) = length (concat reports)"
    unfolding length_fields_exact [OF assms(2)] by (simp add: length_concat)
  have run: "FillReports reports b m0 = Inr (?ret, ?m')"
    using assms(1) by (rule FillReports_nonempty)
  have cur: "length (concat reports) = fst (FillReports_fold reports b m0) - b"
    by (simp add: FillReports_fold_eq)
  have ld: "load ?m' b (length (concat reports)) = concat reports"
    by (rule load_memcpy)
  have "unat ?ret = length (concat reports) mod 65536"
    by (simp only: unat_u16_of_nat length_concat)
  then have fit: "length (concat reports) \<le> 65535 \<longrightarrow> unat ?ret = length (concat reports)"
    by simp
  from run cur ld fit show ?thesis
    unfolding fields by blast
qed

theorem length_fields_sum_to_blob_length_witness:
  "\<exists>ret m'. FillReports [[5, 1, 9, 6], [6, 0, 255]] 0 blank = Inr (ret, m')
      \<and> sum_list (map (wDescriptorLength
            (snd (FillReportsDescriptors [[5, 1, 9, 6], [6, 0, 255]] 0 blank)) 0)
            [0..<length [[5, 1, 9, 6], [6, 0, 255 :: u8]]])
          = fst (FillReports_fold [[5, 1, 9, 6], [6, 0, 255]] 0 blank) - 0
      \<and> unat ret = 7"
proof -
  have ne: "[[5, 1, 9, 6], [6, 0, 255 :: u8]] \<noteq> []"
    by simp
  have small: "\<forall>r\<in>set [[5, 1, 9, 6], [6, 0, 255 :: u8]]. length r \<le> 65535"
    by simp
  have cur: "fst (FillReports_fold [[5, 1, 9, 6], [6, 0, 255]] 0 blank) - 0 = 7"
    by (simp add: FillReports_fold_cursor sizeof_Data_def)
  have len: "length (concat [[5, 1, 9, 6], [6, 0, 255 :: u8]]) = 7"
    by simp
  have "(7 :: nat) \<le> 65535"
    by simp
  with length_fields_sum_to_blob_length [OF ne small, of 0 blank 0 blank] show ?thesis
    unfolding len cur by metis
qed

text \<open>
  Claim C8. For every report list and every permutation of it, the entries written for
  the permuted list are the entries of the original list under that permutation, and
  so are the segments of the blob. (For the empty list \<open>FillReports\<close> is ill-formed
  for both.)
\<close>

theorem reordering_permutes_entries_and_blob:
  assumes "is_permutation p (length reports)"
  shows "segments (snd (FillReportsDescriptors (permute p reports) a m)) a
             (replicate (length reports) 3)
           = permute p (segments (snd (FillReportsDescriptors reports a m)) a
                (replicate (length reports) 3))
       \<and> (reports \<noteq> [] \<longrightarrow>
            (\<exists>ret m1 m2. FillReports reports b m = Inr (ret, m1)
               \<and> FillReports (permute p reports) b m = Inr (ret, m2)
               \<and> segments m2 b (map length (permute p reports))
                   = permute p (segments m1 b (map length reports))))
       \<and> (reports = [] \<longrightarrow>
            FillReports reports b m = Inl IllFormedEmptyFold
          \<and> FillReports (permute p reports) b m = Inl IllFormedEmptyFold)"
proof -
  have n: "length (permute p reports) = length reports"
    using assms by (simp add: length_permute length_is_permutation)
  have "segments (snd (FillReportsDescriptors (permute p reports) a m)) a
      (replicate (length (permute p reports)) 3) = map entry (permute p reports)"
    by (rule entries_segments)
  then have e: "segments (snd (FillReportsDescriptors (permute p reports) a m)) a
      (replicate (length reports) 3)
      = permute p (segments (snd (FillReportsDescriptors reports a m)) a
          (replicate (length reports) 3))"
    unfolding n entries_segments by (simp only: map_permute [OF assms])
  have blob: "\<exists>ret m1 m2. FillReports reports b m = Inr (ret, m1)
               \<and> FillReports (permute p reports) b m = Inr (ret, m2)
               \<and> segments m2 b (map length (permute p reports))
                   = permute p (segments m1 b (map length reports))"
    if "reports \<noteq> []"
  proof -
    from that n have ne: "permute p reports \<noteq> []"
      by (metis length_0_conv)
    have "FillReports reports b m
        = Inr (of_nat (sum_list (map length reports)), memcpy b (concat reports) m)"
      using that by (rule FillReports_nonempty)
    moreover have "FillReports (permute p reports) b m
        = Inr (of_nat (sum_list (map length reports)), memcpy b (concat (permute p reports)) m)"
      using FillReports_nonempty [OF ne] by (simp only: sum_lengths_permute [OF assms])
    moreover have "segments (memcpy b (concat (permute p reports)) m) b
          (map length (permute p reports))
        = permute p (segments (memcpy b (concat reports) m) b (map length reports))"
      by (simp only: segments_memcpy_concat)
    ultimately show ?thesis
      by blast
  qed
  have empty: "FillReports reports b m = Inl IllFormedEmptyFold
          \<and> FillReports (permute p reports) b m = Inl IllFormedEmptyFold"
    if "reports = []"
  proof -
    from that n have "permute p reports = []"
      by simp
    with that show ?thesis
      by (simp only: FillReports_empty)
  qed
  from e blob empty show ?thesis
    by blast
qed

theorem reordering_permutes_entries_and_blob_witness:
  "is_permutation [1, 0] (length [[5, 1, 9, 6], [6, 0, 255 :: u8]])
   \<and> segments (snd (FillReportsDescriptors (permute [1, 0] [[5, 1, 9, 6], [6, 0, 255]]) 0 blank)) 0
       (replicate (length [[5, 1, 9, 6], [6, 0, 255 :: u8]]) 3)
     = permute [1, 0] (segments (snd (FillReportsDescriptors [[5, 1, 9, 6], [6, 0, 255]] 0 blank)) 0
         (replicate (length [[5, 1, 9, 6], [6, 0, 255 :: u8]]) 3))
   \<and> (\<exists>ret m1 m2. FillReports [[5, 1, 9, 6], [6, 0, 255]] 0 blank = Inr (ret, m1)
        \<and> FillReports (permute [1, 0] [[5, 1, 9, 6], [6, 0, 255]]) 0 blank = Inr (ret, m2)
        \<and> segments m2 0 (map length (permute [1, 0] [[5, 1, 9, 6], [6, 0, 255 :: u8]]))
            = permute [1, 0] (segments m1 0 (map length [[5, 1, 9, 6], [6, 0, 255 :: u8]])))"
proof -
  have perm: "is_permutation [1, 0] (length [[5, 1, 9, 6], [6, 0, 255 :: u8]])"
    by (auto simp: is_permutation_def)
  have ne: "[[5, 1, 9, 6], [6, 0, 255 :: u8]] \<noteq> []"
    by simp
  from reordering_permutes_entries_and_blob [OF perm, of 0 blank 0] perm ne show ?thesis
    by blast
qed

subsection \<open>SetupHandler\<close>

text \<open>
  Claim C9, as stated: for every GetDescriptor request for the HID report descriptor the
  handler fills a local array of \<open>ReportsSize\<close> bytes through \<open>FillReports\<close> and
  transmits the smaller of the requested length and the size. The array bound is the
  16-bit \<open>ReportsSize\<close>, while \<open>FillReports\<close> copies every byte of every report: for
  two reports of 32768 bytes the array has 0 bytes, 65536 bytes are copied into it, and
  the handler overruns the array instead of transmitting.
\<close>

theorem SetupHandler_overrun_counterexample:
  "Request \<lparr>Request = 6, Value = 0x2200, Length_setup = 4\<rparr> = 6
   \<and> Value \<lparr>Request = 6, Value = 0x2200, Length_setup = 4\<rparr> = 0x2200
   \<and> sum_list (map length [replicate 32768 (0 :: u8), replicate 32768 0]) = 65536
   \<and> ReportsSize [replicate 32768 0, replicate 32768 0] = Inr 0
   \<and> SetupHandler 6 0x2200 [replicate 32768 0, replicate 32768 0]
         \<lparr>Request = 6, Value = 0x2200, Length_setup = 4\<rparr> 0 blank
       = Inl BufferOverrun"
  by (simp add: SetupHandler_def ReportsSize_nonempty FillReports_nonempty sizeof_Data_def)

text \<open>
  Claim C9, amended. For every non-empty report list of at most 65535 bytes in all and
  every setup packet that is a GetDescriptor request for the HID report descriptor, the
  handler fills a local array of \<open>ReportsSize\<close> bytes through \<open>FillReports\<close> and calls
  \<open>SendData\<close> once, on that array, with the smaller of the requested length and the
  size: the bytes it designates are that many leading bytes of the blob.
\<close>

theorem SetupHandler_sends_clamped_blob:
  assumes "reports \<noteq> []" and "sum_list (map length reports) \<le> 65535"
    and "Request setup = GetDescriptor" and "Value setup = HidReportDescriptor"
  shows "\<exists>m' n size'.
           SetupHandler GetDescriptor HidReportDescriptor reports setup temp m
             = Inr (m', [SendData temp n])
         \<and> ReportsSize reports = Inr size'
         \<and> unat size' = length (concat reports)
         \<and> load m' temp (unat size') = concat reports
         \<and> unat n = min (unat (Length_setup setup)) (unat size')
         \<and> load m' temp (unat n) = take (unat n) (concat reports)"
proof -
  let ?T = "sum_list (map length reports)"
  let ?size = "of_nat ?T :: u16"
  let ?m' = "memcpy temp (concat reports) m"
  let ?n = "if Length_setup setup < ?size then Length_setup setup else ?size"
  have T: "length (concat reports) = ?T"
    by (simp add: length_concat)
  have sz: "ReportsSize reports = Inr ?size"
    using assms(1) by (rule ReportsSize_nonempty)
  have u: "unat ?size = ?T"
    using assms(2) by (simp add: unat_u16_of_nat)
  have fr: "FillReports reports temp m = Inr (?size, ?m')"
    using assms(1) by (rule FillReports_nonempty)
  have run: "SetupHandler GetDescriptor HidReportDescriptor reports setup temp m
      = Inr (?m', [SendData temp ?n])"
    unfolding SetupHandler_def sz fr using assms(3,4) u
    by (simp add: map_sizeof_Data)
  have n: "unat ?n = min (unat (Length_setup setup)) (unat ?size)"
    by (rule unat_clamp)
  have uT: "unat ?size = length (concat reports)"
    using u T by simp
  have full: "load ?m' temp (unat ?size) = concat reports"
    unfolding uT by (rule load_memcpy)
  have "unat ?n \<le> length (concat reports)"
    unfolding n uT by simp
  then have part: "load ?m' temp (unat ?n) = take (unat ?n) (concat reports)"
    by (rule load_memcpy_take)
  from run sz uT full n part show ?thesis
    by blast
qed

theorem SetupHandler_sends_clamped_blob_witness:
  "\<exists>m' n. SetupHandler 6 0x2200 [[5, 1, 9, 6], [6, 0, 255]]
             \<lparr>Request = 6, Value = 0x2200, Length_setup = 4\<rparr> 0 blank
         = Inr (m', [SendData 0 n])
       \<and> unat n = 4
       \<and> load m' 0 (unat n) = [5, 1, 9, 6]"
proof -
  let ?rs = "[[5, 1, 9, 6], [6, 0, 255 :: u8]]"
  let ?packet = "\<lparr>Request = 6, Value = 0x2200, Length_setup = 4\<rparr>"
  have ne: "?rs \<noteq> []"
    by simp
  have fits: "sum_list (map length ?rs) \<le> 65535"
    by simp
  have rq: "Request ?packet = 6" and vl: "Value ?packet = 0x2200"
    by simp_all
  from SetupHandler_sends_clamped_blob [OF ne fits rq vl, of 0 blank]
  obtain m' n and size' :: u16 where
    run: "SetupHandler 6 0x2200 ?rs ?packet 0 blank = Inr (m', [SendData 0 n])"
    and sz: "unat size' = length (concat ?rs)"
    and n: "unat n = min (unat (Length_setup ?packet)) (unat size')"
    and part: "load m' 0 (unat n) = take (unat n) (concat ?rs)"
    by blast
  from sz n have n4: "unat n = 4"
    by simp
  with part have "load m' 0 (unat n) = [5, 1, 9, 6]"
    by simp
  with run n4 show ?thesis
    by blast
qed

end
